theory Spec2Isabelle
  imports Main "HOL-Library.Word"
begin

section \<open>Strings of the plugin\<close>

text \<open>
  The plugin is TypeScript: its strings are sequences of UTF-16 code units. A string is
  a list of 16-bit words; \<open>js\<close> writes an ASCII literal as such a list. Regular
  expressions without the \<open>u\<close> flag, \<open>lastIndexOf\<close>, \<open>slice\<close> and \<open>===\<close> work on
  code units; the sanitizer's expression has the \<open>u\<close> flag and works on code points, a
  high surrogate followed by a low surrogate being one code point.
\<close>

type_synonym codeunit = "16 word"
type_synonym jsstring = "codeunit list"

definition js :: "string \<Rightarrow> jsstring" where
  "js s = map of_char s"

text \<open>
  What the plugin takes from the JavaScript engine and the Unicode tables, and what is
  therefore no code of the repository, is a parameter of the model:
  \<^item> \<open>unicodeL\<close>: the code points above ASCII of General\_Category L (\<open>\p{L}\<close>);
  \<open>lowerCaseU\<close>: \<open>String.prototype.toLowerCase\<close> on a string that is not pure ASCII;
  \<^item> \<open>compileExec\<close>: \<open>new RegExp(p)\<close> followed by \<open>exec\<close>, for a pattern outside the
  syntax modelled below: \<open>None\<close> is the SyntaxError of the constructor; the function
  gives, for a subject, \<open>None\<close> when there is no match (\<open>null\<close>) and otherwise the first
  capture group, \<open>None\<close> when it is \<open>undefined\<close>;
  \<^item> \<open>compileRemove\<close>: \<open>new RegExp(p, 'gm')\<close> for a pattern outside the syntax
  modelled below, as the function \<open>x \<mapsto> x.replace(re, '')\<close>, \<open>None\<close> again the
  SyntaxError;
  \<^item> \<open>expNotation\<close>: \<open>Number.prototype.toString\<close> for an integer of magnitude
  \<open>10^21\<close> or more (exponent notation with the shortest round-trip digits).
\<close>

record host =
  unicodeL :: "nat \<Rightarrow> bool"
  lowerCaseU :: "jsstring \<Rightarrow> jsstring"
  compileExec :: "jsstring \<Rightarrow> (jsstring \<Rightarrow> jsstring option option) option"
  compileRemove :: "jsstring \<Rightarrow> (jsstring \<Rightarrow> jsstring) option"
  expNotation :: "int \<Rightarrow> jsstring"

subsection \<open>White space, letters, case\<close>

text \<open>
  \<open>\s\<close> and \<open>trim()\<close> share one set: WhiteSpace and LineTerminator of ECMAScript.
\<close>

definition isWhiteSpace :: "codeunit \<Rightarrow> bool" where
  "isWhiteSpace c =
     (c \<in> {0x09, 0x0A, 0x0B, 0x0C, 0x0D, 0x20, 0xA0, 0x1680, 0x2028, 0x2029, 0x202F,
            0x205F, 0x3000, 0xFEFF}
      \<or> (0x2000 \<le> c \<and> c \<le> 0x200A))"

definition isHighSurrogate :: "codeunit \<Rightarrow> bool" where
  "isHighSurrogate c = (0xD800 \<le> c \<and> c \<le> 0xDBFF)"

definition isLowSurrogate :: "codeunit \<Rightarrow> bool" where
  "isLowSurrogate c = (0xDC00 \<le> c \<and> c \<le> 0xDFFF)"

definition codePoint :: "codeunit \<Rightarrow> codeunit \<Rightarrow> nat" where
  "codePoint hi lo = 0x10000 + (unat hi - 0xD800) * 0x400 + (unat lo - 0xDC00)"

definition isDigit :: "codeunit \<Rightarrow> bool" where
  "isDigit c = (0x30 \<le> c \<and> c \<le> 0x39)"

definition isAsciiUpper :: "codeunit \<Rightarrow> bool" where
  "isAsciiUpper c = (0x41 \<le> c \<and> c \<le> 0x5A)"

text \<open>
  \<open>\p{L}\<close> on a code point: the ASCII letters, and above ASCII the table of the host;
  a surrogate code point (a lone surrogate of the string) has category Cs, not L.
\<close>

definition isLetter :: "host \<Rightarrow> nat \<Rightarrow> bool" where
  "isLetter h cp =
     (if cp < 0x80 then (0x41 \<le> cp \<and> cp \<le> 0x5A) \<or> (0x61 \<le> cp \<and> cp \<le> 0x7A)
      else if 0xD800 \<le> cp \<and> cp \<le> 0xDFFF then False
      else unicodeL h cp)"

text \<open>
  \<open>toLowerCase()\<close>: on a pure ASCII string it maps \<open>A-Z\<close> to \<open>a-z\<close> unit by unit;
  otherwise it is the host's (it is not a map over units: the final sigma depends on its
  context, and some letters lower-case to two units).
\<close>

definition toLowerCase :: "host \<Rightarrow> jsstring \<Rightarrow> jsstring" where
  "toLowerCase h s =
     (if list_all (\<lambda>c. c < 0x80) s then map (\<lambda>c. if isAsciiUpper c then c + 0x20 else c) s
      else lowerCaseU h s)"

definition trim :: "jsstring \<Rightarrow> jsstring" where
  "trim s = rev (dropWhile isWhiteSpace (rev (dropWhile isWhiteSpace s)))"

section \<open>utils.ts: the sanitizer\<close>

text \<open>
  \<^verbatim>\<open>const filenameNotAllowedChars = /[^\p{L}0-9~`!@$&*()\-_=+{};'",<.>? ]/ug\<close>:
  a code point is kept when it is a letter, a digit, or one of the listed punctuation
  characters or the space (\<open>0x60\<close> the backquote, \<open>0x27\<close> and \<open>0x22\<close> the quotes).
\<close>

definition filenamePunctuation :: "codeunit list" where
  "filenamePunctuation = js ''~!@$&*()-_=+{};,<.>? '' @ [0x60, 0x27, 0x22]"

definition filenameAllowed :: "host \<Rightarrow> nat \<Rightarrow> bool" where
  "filenameAllowed h cp =
     (isLetter h cp \<or> (0x30 \<le> cp \<and> cp \<le> 0x39) \<or> cp \<in> set (map unat filenamePunctuation))"

text \<open>
  \<open>s.replace(filenameNotAllowedChars, '')\<close>: with the flags \<open>u\<close> and \<open>g\<close> the string
  is read code point by code point, and every code point the class matches is removed.
\<close>

fun stripNotAllowed :: "host \<Rightarrow> jsstring \<Rightarrow> jsstring" where
  "stripNotAllowed h [] = []"
| "stripNotAllowed h [c] = (if filenameAllowed h (unat c) then [c] else [])"
| "stripNotAllowed h (c # d # s) =
     (if isHighSurrogate c \<and> isLowSurrogate d then
        (if filenameAllowed h (codePoint c d) then c # d # stripNotAllowed h s
         else stripNotAllowed h s)
      else
        (if filenameAllowed h (unat c) then c # stripNotAllowed h (d # s)
         else stripNotAllowed h (d # s)))"

text \<open>\<^verbatim>\<open>filename(s) { return s.replace(filenameNotAllowedChars, '').trim() }\<close>\<close>

definition filename :: "host \<Rightarrow> jsstring \<Rightarrow> jsstring" where
  "filename h s = trim (stripNotAllowed h s)"

text \<open>
  \<^verbatim>\<open>delimiter(s) { s = this.filename(s); if (!s) s = '-'; return s }\<close>
\<close>

definition delimiter :: "host \<Rightarrow> jsstring \<Rightarrow> jsstring" where
  "delimiter h s = (let s' = filename h s in if s' = [] then js ''-'' else s')"

section \<open>Settings\<close>

record PluginSettings =
  imageNamePattern :: jsstring
  dupNumberAtStart :: bool
  dupNumberDelimiter :: jsstring
  dupNumberAlways :: bool
  autoRename :: bool
  handleAllAttachments :: bool
  excludeExtensionPattern :: jsstring
  disableRenameNotice :: bool
  pngToJpeg :: bool
  pngToWebp :: bool
  quality :: jsstring

definition DEFAULT_SETTINGS :: PluginSettings where
  "DEFAULT_SETTINGS =
     \<lparr> imageNamePattern = js ''{{fileName}}'', dupNumberAtStart = False,
       dupNumberDelimiter = js ''-'', dupNumberAlways = False, autoRename = False,
       handleAllAttachments = False, excludeExtensionPattern = [],
       disableRenameNotice = False, pngToJpeg = False, pngToWebp = False,
       quality = js ''0.8'' \<rparr>"

text \<open>
  The handler of the settings tab's delimiter field:
  \<^verbatim>\<open>this.plugin.settings.dupNumberDelimiter = sanitizer.delimiter(value)\<close>.
\<close>

definition onChangeDupNumberDelimiter :: "host \<Rightarrow> PluginSettings \<Rightarrow> jsstring \<Rightarrow> PluginSettings" where
  "onChangeDupNumberDelimiter h settings v = settings\<lparr>dupNumberDelimiter := delimiter h v\<rparr>"

section \<open>main.ts: extensions and file names\<close>

text \<open>
  \<open>fileName.lastIndexOf('.')\<close>: the index of the last occurrence, \<open>-1\<close> when there
  is none.
\<close>

fun lastIndexOf :: "jsstring \<Rightarrow> codeunit \<Rightarrow> int" where
  "lastIndexOf [] c = - 1"
| "lastIndexOf (x # xs) c =
     (let r = lastIndexOf xs c in if 0 \<le> r then r + 1 else if x = c then 0 else - 1)"

text \<open>\<open>s.slice(i, j)\<close> and \<open>s.slice(i)\<close> for indices \<open>0 \<le> i \<le> j\<close>.\<close>

definition slice :: "jsstring \<Rightarrow> nat \<Rightarrow> nat \<Rightarrow> jsstring" where
  "slice s i j = take (j - i) (drop i s)"

definition sliceFrom :: "jsstring \<Rightarrow> nat \<Rightarrow> jsstring" where
  "sliceFrom s i = drop i s"

text \<open>
  \<^verbatim>\<open>function getActualExtension(extension, settings) {
    const ext = extension.toLowerCase();
    if (ext === 'png') {
      if (settings.pngToWebp) return 'webp';
      if (settings.pngToJpeg) return 'jpeg';
    }
    return ext;
  }\<close>
\<close>

definition getActualExtension :: "host \<Rightarrow> jsstring \<Rightarrow> PluginSettings \<Rightarrow> jsstring" where
  "getActualExtension h extension settings =
     (let ext = toLowerCase h extension in
      if ext = js ''png'' then
        (if pngToWebp settings then js ''webp''
         else if pngToJpeg settings then js ''jpeg''
         else ext)
      else ext)"

record ParsedName =
  stem :: jsstring
  extension :: jsstring

text \<open>
  \<open>parseFileName\<close>, with its four returns in the order of the source: the empty name,
  no dot, the last dot at index 0, and the general case.
\<close>

definition parseFileName :: "host \<Rightarrow> jsstring \<Rightarrow> ParsedName" where
  "parseFileName h fileName =
     (if fileName = [] then \<lparr> stem = [], extension = [] \<rparr>
      else
        let lastDotIndex = lastIndexOf fileName (of_char CHR ''.'') in
        if lastDotIndex = - 1 then \<lparr> stem = fileName, extension = [] \<rparr>
        else if lastDotIndex = 0 then
          \<lparr> stem = [], extension = toLowerCase h (sliceFrom fileName 1) \<rparr>
        else
          \<lparr> stem = slice fileName 0 (nat lastDotIndex),
            extension = toLowerCase h (sliceFrom fileName (nat (lastDotIndex + 1))) \<rparr>)"

section \<open>main.ts: the meaningfulness check\<close>

text \<open>
  \<^verbatim>\<open>function isNameMeaningful(name, delimiter) {
    const meaninglessRegex = new RegExp(`[${delimiter}\\s]`, 'gm');
    return name.replace(meaninglessRegex, '') !== '';
  }\<close>
  The delimiter is pasted unescaped into a character class. The class syntax of
  ECMAScript (without the \<open>u\<close> flag, Annex B) is modelled for a body made of plain
  code units and the escape \<open>\s\<close>: an atom, a \<open>-\<close> and another atom form a range, so
  that a \<open>-\<close> stands for itself only as the first atom of the class, right after a range,
  or as the last atom. A body with another escape, with \<open>]\<close>, or starting with \<open>^\<close> is
  the host's.
\<close>

datatype error = SyntaxError | InvalidName | EmptyAfterSanitization

datatype classAtom = Unit codeunit | WhiteSpaceEscape

datatype classItem = Single classAtom | Range classAtom classAtom

fun classAtoms :: "jsstring \<Rightarrow> classAtom list option" where
  "classAtoms [] = Some []"
| "classAtoms [c] = (if c = 0x5C \<or> c = 0x5D then None else Some [Unit c])"
| "classAtoms (c # d # s) =
     (if c = 0x5C then
        (if d = 0x73 then map_option (\<lambda>as. WhiteSpaceEscape # as) (classAtoms s) else None)
      else if c = 0x5D then None
      else map_option (\<lambda>as. Unit c # as) (classAtoms (d # s)))"

fun classRanges :: "classAtom list \<Rightarrow> classItem list" where
  "classRanges (a # d # b # rest) =
     (if d = Unit 0x2D then Range a b # classRanges rest
      else Single a # classRanges (d # b # rest))"
| "classRanges (a # rest) = Single a # classRanges rest"
| "classRanges [] = []"

text \<open>
  A range between two code units must be in order (else the constructor throws); a
  range with \<open>\s\<close> at either end is, without the \<open>u\<close> flag, the union of both ends
  and the \<open>-\<close>.
\<close>

fun outOfOrder :: "classItem \<Rightarrow> bool" where
  "outOfOrder (Range (Unit a) (Unit b)) = (b < a)"
| "outOfOrder _ = False"

fun inAtom :: "classAtom \<Rightarrow> codeunit \<Rightarrow> bool" where
  "inAtom (Unit a) c = (c = a)"
| "inAtom WhiteSpaceEscape c = isWhiteSpace c"

fun inItem :: "classItem \<Rightarrow> codeunit \<Rightarrow> bool" where
  "inItem (Single a) c = inAtom a c"
| "inItem (Range (Unit a) (Unit b)) c = (a \<le> c \<and> c \<le> b)"
| "inItem (Range a b) c = (inAtom a c \<or> inAtom b c \<or> c = 0x2D)"

text \<open>
  \<open>new RegExp(p, 'gm')\<close> as the function \<open>x \<mapsto> x.replace(re, '')\<close>, \<open>None\<close>
  being the SyntaxError of the constructor. For a pattern that is one character class of
  the modelled syntax, every code unit of the class is removed.
\<close>

definition classBody :: "jsstring \<Rightarrow> jsstring option" where
  "classBody p =
     (if 2 \<le> length p \<and> hd p = 0x5B \<and> last p = 0x5D \<and> \<not> (hd (tl p) = 0x5E)
      then Some (butlast (tl p)) else None)"

definition removeAllMatches :: "host \<Rightarrow> jsstring \<Rightarrow> (jsstring \<Rightarrow> jsstring) option" where
  "removeAllMatches h p =
     (case classBody p of
        None \<Rightarrow> compileRemove h p
      | Some body \<Rightarrow>
          (case classAtoms body of
             None \<Rightarrow> compileRemove h p
           | Some as \<Rightarrow>
               (let items = classRanges as in
                if list_ex outOfOrder items then None
                else Some (filter (\<lambda>c. \<not> list_ex (\<lambda>i. inItem i c) items)))))"

definition isNameMeaningful :: "host \<Rightarrow> jsstring \<Rightarrow> jsstring \<Rightarrow> error + bool" where
  "isNameMeaningful h name' delimiter' =
     (case removeAllMatches h (js ''['' @ delimiter' @ [0x5C, 0x73, 0x5D]) of
        None \<Rightarrow> Inl SyntaxError
      | Some remove \<Rightarrow> Inr (remove name' \<noteq> []))"

section \<open>Numbers\<close>

text \<open>
  A JavaScript number that \<open>parseInt\<close>, \<open>Math.max\<close> and \<open>+ 1\<close> can produce here: NaN,
  an infinity, or a double whose value is an integer (\<open>-0\<close> is identified with \<open>0\<close>:
  \<open>-0 + 1\<close> is \<open>1\<close>, and no \<open>-0\<close> is printed). \<open>toNumber\<close> is the Number value of a
  mathematical integer: itself below \<open>2^53\<close>, and above that the nearest multiple of the
  spacing of the doubles of its size, ties going to the even significand, or an infinity
  from \<open>2^1024\<close> on.
\<close>

datatype jsnum = NaN | PosInf | NegInf | Fin int

function bitLength :: "nat \<Rightarrow> nat" where
  "bitLength n = (if n = 0 then 0 else Suc (bitLength (n div 2)))"
  by pat_completeness auto
termination
  by (relation "measure id") auto

definition roundToDouble :: "nat \<Rightarrow> nat" where
  "roundToDouble a =
     (let e = bitLength a - 53;
          q = a div 2 ^ e;
          r = a mod 2 ^ e;
          q' = (if 2 ^ e < 2 * r \<or> (2 * r = 2 ^ e \<and> odd q) then q + 1 else q)
      in q' * 2 ^ e)"

definition toNumber :: "int \<Rightarrow> jsnum" where
  "toNumber i =
     (let a = nat \<bar>i\<bar> in
      if a < 2 ^ 53 then Fin i
      else
        let v = roundToDouble a
        in if 2 ^ 1024 \<le> v then (if i < 0 then NegInf else PosInf)
           else Fin (if i < 0 then - int v else int v))"

definition digitsValue :: "jsstring \<Rightarrow> nat" where
  "digitsValue z = foldl (\<lambda>acc c. acc * 10 + (unat c - 48)) 0 z"

text \<open>
  \<open>parseInt(s, 10)\<close>: leading white space is skipped, a sign is read, and the longest
  prefix of decimal digits is the value; with no digit the result is NaN. (The standard
  lets an engine replace the digits after the twentieth by zeros; the value is modelled
  as correctly rounded.)
\<close>

definition parseInt10 :: "jsstring \<Rightarrow> jsnum" where
  "parseInt10 s =
     (let t = dropWhile isWhiteSpace s;
          signed = (t \<noteq> [] \<and> (hd t = 0x2D \<or> hd t = 0x2B));
          negative = (t \<noteq> [] \<and> hd t = 0x2D);
          z = takeWhile isDigit (if signed then tl t else t)
      in if z = [] then NaN
         else toNumber (if negative then - int (digitsValue z) else int (digitsValue z)))"

definition isNaN :: "jsnum \<Rightarrow> bool" where
  "isNaN n = (n = NaN)"

text \<open>\<open>Math.max(...xs)\<close>: NaN when an argument is NaN, \<open>-Infinity\<close> for no argument.\<close>

fun max2 :: "jsnum \<Rightarrow> jsnum \<Rightarrow> jsnum" where
  "max2 NaN _ = NaN"
| "max2 _ NaN = NaN"
| "max2 PosInf _ = PosInf"
| "max2 _ PosInf = PosInf"
| "max2 NegInf y = y"
| "max2 x NegInf = x"
| "max2 (Fin a) (Fin b) = Fin (max a b)"

definition mathMax :: "jsnum list \<Rightarrow> jsnum" where
  "mathMax xs = foldl max2 NegInf xs"

text \<open>\<open>x + 1\<close> in double arithmetic.\<close>

fun plusOne :: "jsnum \<Rightarrow> jsnum" where
  "plusOne (Fin a) = toNumber (a + 1)"
| "plusOne x = x"

function decimal :: "nat \<Rightarrow> jsstring" where
  "decimal n = (if n < 10 then [of_nat (48 + n)] else decimal (n div 10) @ [of_nat (48 + n mod 10)])"
  by pat_completeness auto
termination
  by (relation "measure id") auto

text \<open>
  A number in a template literal (\<open>Number::toString\<close>): the decimal digits of an
  integer below \<open>10^21\<close> in magnitude, the host's exponent notation from there on.
\<close>

definition numberToString :: "host \<Rightarrow> jsnum \<Rightarrow> jsstring" where
  "numberToString h n =
     (case n of
        NaN \<Rightarrow> js ''NaN''
      | PosInf \<Rightarrow> js ''Infinity''
      | NegInf \<Rightarrow> js ''-Infinity''
      | Fin i \<Rightarrow>
          if \<bar>i\<bar> < 10 ^ 21 then (if i < 0 then js ''-'' @ decimal (nat (- i)) else decimal (nat i))
          else expNotation h i)"

section \<open>utils.ts: path.basename and escapeRegExp\<close>

text \<open>\<^verbatim>\<open>basename(fullpath) { const sp = fullpath.split('/'); return sp[sp.length - 1] }\<close>\<close>

definition basename :: "jsstring \<Rightarrow> jsstring" where
  "basename fullpath = rev (takeWhile (\<lambda>c. c \<noteq> 0x2F) (rev fullpath))"

text \<open>
  \<^verbatim>\<open>function escapeRegExp(s) { return s.replace(/[.*+?^${}()|[\]\\]/g, '\\$&') }\<close>:
  a backslash (\<open>0x5C\<close>) is put before each of the listed characters.
\<close>

definition regExpSpecial :: "codeunit list" where
  "regExpSpecial = js ''.*+?^${}()|[]'' @ [0x5C]"

definition escapeRegExp :: "jsstring \<Rightarrow> jsstring" where
  "escapeRegExp s = concat (map (\<lambda>c. if c \<in> set regExpSpecial then [0x5C, c] else [c]) s)"

section \<open>The regular expression of the duplicate scan\<close>

text \<open>
  \<open>new RegExp(p)\<close> without flags, as far as the plugin's patterns need it. A pattern
  is read into tokens: \<open>^\<close>, \<open>$\<close>, \<open>(\<close>, \<open>)\<close>, \<open>+\<close>, the escape \<open>\d\<close>, and
  literal code units, written plainly or as a backslash before a syntax character. A
  pattern with anything else (\<open>.\<close>, \<open>*\<close>, \<open>?\<close>, brackets, braces, \<open>|\<close>, another
  escape) is the host's.
\<close>

datatype token = TBol | TEol | TOpen | TClose | TPlus | TDigit | TLit codeunit

definition plainToken :: "codeunit \<Rightarrow> token option" where
  "plainToken c =
     (if c = 0x5E then Some TBol
      else if c = 0x24 then Some TEol
      else if c = 0x28 then Some TOpen
      else if c = 0x29 then Some TClose
      else if c = 0x2B then Some TPlus
      else if c \<in> set regExpSpecial then None
      else Some (TLit c))"

fun tokenize :: "jsstring \<Rightarrow> token list option" where
  "tokenize [] = Some []"
| "tokenize [c] = map_option (\<lambda>t. [t]) (plainToken c)"
| "tokenize (c # d # s) =
     (if c = 0x5C then
        (if d = 0x64 then map_option (\<lambda>ts. TDigit # ts) (tokenize s)
         else if d \<in> set regExpSpecial then map_option (\<lambda>ts. TLit d # ts) (tokenize s)
         else None)
      else
        (case plainToken c of
           None \<Rightarrow> None
         | Some t \<Rightarrow> map_option (\<lambda>ts. t # ts) (tokenize (d # s))))"

text \<open>
  Two errors every engine reports for such a pattern: parentheses that do not match, and
  a \<open>+\<close> with nothing to repeat (at the start, or after \<open>^\<close>, \<open>$\<close>, \<open>(\<close> or
  another \<open>+\<close>).
\<close>

fun parensMatch :: "nat \<Rightarrow> token list \<Rightarrow> bool" where
  "parensMatch depth [] = (depth = 0)"
| "parensMatch depth (TOpen # ts) = parensMatch (Suc depth) ts"
| "parensMatch depth (TClose # ts) = (0 < depth \<and> parensMatch (depth - 1) ts)"
| "parensMatch depth (_ # ts) = parensMatch depth ts"

fun repeatable :: "token \<Rightarrow> bool" where
  "repeatable (TLit _) = True"
| "repeatable TDigit = True"
| "repeatable TClose = True"
| "repeatable _ = False"

fun nothingToRepeat :: "bool \<Rightarrow> token list \<Rightarrow> bool" where
  "nothingToRepeat prev [] = False"
| "nothingToRepeat prev (TPlus # ts) = (\<not> prev \<or> nothingToRepeat False ts)"
| "nothingToRepeat prev (t # ts) = nothingToRepeat (repeatable t) ts"

text \<open>
  The patterns the scan is written for: \<open>^\<close>, literal units, \<open>(\d+)\<close>, literal units,
  \<open>$\<close>. Such an expression matches a subject that is the first literals, one or more
  decimal digits, and the second literals, and nothing else; the digits are its first
  group. Both ends being fixed, the digits are determined.
\<close>

fun isLit :: "token \<Rightarrow> bool" where
  "isLit (TLit _) = True"
| "isLit _ = False"

fun litOf :: "token \<Rightarrow> codeunit" where
  "litOf (TLit c) = c"
| "litOf _ = 0"

definition numberedShape :: "token list \<Rightarrow> (jsstring \<times> jsstring) option" where
  "numberedShape ts =
     (case ts of
        TBol # r \<Rightarrow>
          (case dropWhile isLit r of
             TOpen # TDigit # TPlus # TClose # r' \<Rightarrow>
               (if dropWhile isLit r' = [TEol]
                then Some (map litOf (takeWhile isLit r), map litOf (takeWhile isLit r'))
                else None)
           | _ \<Rightarrow> None)
      | _ \<Rightarrow> None)"

definition execNumbered :: "jsstring \<Rightarrow> jsstring \<Rightarrow> jsstring \<Rightarrow> jsstring option option" where
  "execNumbered pre post subject =
     (let n = length subject - length pre - length post;
          digits = take n (drop (length pre) subject)
      in if length pre + length post < length subject
            \<and> take (length pre) subject = pre
            \<and> drop (length pre + n) subject = post
            \<and> list_all isDigit digits
         then Some (Some digits) else None)"

text \<open>
  The compiled expression as its \<open>exec\<close>: for a subject, \<open>None\<close> is \<open>null\<close>, and
  \<open>Some g\<close> a match whose first group is \<open>g\<close> (\<open>None\<close> for \<open>undefined\<close>). The
  result \<open>None\<close> of \<open>newRegExp\<close> itself is the SyntaxError.
\<close>

definition newRegExp :: "host \<Rightarrow> jsstring \<Rightarrow> (jsstring \<Rightarrow> jsstring option option) option" where
  "newRegExp h p =
     (case tokenize p of
        None \<Rightarrow> compileExec h p
      | Some ts \<Rightarrow>
          if parensMatch 0 ts \<and> \<not> nothingToRepeat False ts then
            (case numberedShape ts of
               None \<Rightarrow> compileExec h p
             | Some (pre, post) \<Rightarrow> Some (execNumbered pre post))
          else None)"

section \<open>main.ts: deduplicateNewName\<close>

text \<open>
  Of the file being renamed the function reads \<open>file.name\<close> and \<open>file.extension\<close>;
  the listing of its directory (\<open>listed.files\<close>, awaited from the vault) is an argument.
\<close>

record TFile =
  tf_name :: jsstring
  tf_extension :: jsstring

record NameObj = ParsedName +
  name :: jsstring

record ScanState =
  isNewNameExist :: bool
  dupNameNumbers :: "jsnum list"

text \<open>
  The body of the \<open>for\<close> loop over \<open>listed.files\<close>; a \<open>continue\<close> leaves the
  state as it is.
\<close>

definition scanStep ::
  "(jsstring \<Rightarrow> jsstring option option) \<Rightarrow> jsstring \<Rightarrow> jsstring \<Rightarrow> jsstring \<Rightarrow> ScanState \<Rightarrow> ScanState"
where
  "scanStep exec fileName exactName filePath st =
     (let siblingName = basename filePath in
      if fileName = siblingName then st
      else if siblingName = exactName then st\<lparr>isNewNameExist := True\<rparr>
      else
        (case exec siblingName of
           Some (Some g) \<Rightarrow>
             (if g \<noteq> [] then
                (let num = parseInt10 g in
                 if \<not> isNaN num then st\<lparr>dupNameNumbers := dupNameNumbers st @ [num]\<rparr>
                 else st)
              else st)
         | _ \<Rightarrow> st))"

fun scanFiles ::
  "(jsstring \<Rightarrow> jsstring option option) \<Rightarrow> jsstring \<Rightarrow> jsstring \<Rightarrow> jsstring list \<Rightarrow> ScanState \<Rightarrow> ScanState"
where
  "scanFiles exec fileName exactName [] st = st"
| "scanFiles exec fileName exactName (filePath # files) st =
     scanFiles exec fileName exactName files (scanStep exec fileName exactName filePath st)"

definition dupNamePattern :: "PluginSettings \<Rightarrow> jsstring \<Rightarrow> jsstring \<Rightarrow> jsstring" where
  "dupNamePattern settings newNameStem actualExtension =
     (let delimiterEscaped = escapeRegExp (dupNumberDelimiter settings);
          newNameStemEscaped = escapeRegExp newNameStem
      in if dupNumberAtStart settings
         then js ''^('' @ [0x5C] @ js ''d+)'' @ delimiterEscaped @ newNameStemEscaped
              @ [0x5C] @ js ''.'' @ actualExtension @ js ''$''
         else js ''^'' @ newNameStemEscaped @ delimiterEscaped @ js ''('' @ [0x5C] @ js ''d+)''
              @ [0x5C] @ js ''.'' @ actualExtension @ js ''$'')"

text \<open>
  The function in three parts, in the order of its body: the target (stem and extension
  to use), the scan of the siblings with the compiled expression (\<open>None\<close> when the
  constructor throws), and the final name.
  \<^verbatim>\<open>const { stem: newNameStem, extension: newNameExt } = parseFileName(newName);
  const actualExtension = newNameExt || file.extension;\<close>
\<close>

definition dedupTarget :: "host \<Rightarrow> jsstring \<Rightarrow> TFile \<Rightarrow> ParsedName" where
  "dedupTarget h newName file =
     (let parsed = parseFileName h newName;
          newNameStem = stem parsed;
          newNameExt = extension parsed;
          actualExtension = (if newNameExt \<noteq> [] then newNameExt else tf_extension file)
      in \<lparr> stem = newNameStem, extension = actualExtension \<rparr>)"

definition exactFileName :: "ParsedName \<Rightarrow> jsstring" where
  "exactFileName t = stem t @ js ''.'' @ extension t"

definition scanSiblings ::
  "host \<Rightarrow> PluginSettings \<Rightarrow> jsstring \<Rightarrow> TFile \<Rightarrow> jsstring list \<Rightarrow> ScanState option"
where
  "scanSiblings h settings newName file listedFiles =
     (let t = dedupTarget h newName file in
      case newRegExp h (dupNamePattern settings (stem t) (extension t)) of
        None \<Rightarrow> None
      | Some exec \<Rightarrow>
          Some (scanFiles exec (tf_name file) (exactFileName t) listedFiles
                  \<lparr> isNewNameExist = False, dupNameNumbers = [] \<rparr>))"

text \<open>
  \<^verbatim>\<open>if (isNewNameExist || this.settings.dupNumberAlways) {
    const newNumber = dupNameNumbers.length > 0 ? Math.max(...dupNameNumbers) + 1 : 1;
    finalName = this.settings.dupNumberAtStart
      ? `${newNumber}${delimiter}${newNameStem}.${actualExtension}`
      : `${newNameStem}${delimiter}${newNumber}.${actualExtension}`;
  } else { finalName = exactFileName; }\<close>
\<close>

definition finalNameOf :: "host \<Rightarrow> PluginSettings \<Rightarrow> ParsedName \<Rightarrow> ScanState \<Rightarrow> jsstring" where
  "finalNameOf h settings t st =
     (if isNewNameExist st \<or> dupNumberAlways settings then
        (let newNumber =
               (if dupNameNumbers st \<noteq> [] then plusOne (mathMax (dupNameNumbers st))
                else Fin 1)
         in if dupNumberAtStart settings
            then numberToString h newNumber @ dupNumberDelimiter settings @ stem t @ js ''.''
                 @ extension t
            else stem t @ dupNumberDelimiter settings @ numberToString h newNumber @ js ''.''
                 @ extension t)
      else exactFileName t)"

definition deduplicateNewName ::
  "host \<Rightarrow> PluginSettings \<Rightarrow> jsstring \<Rightarrow> TFile \<Rightarrow> jsstring list \<Rightarrow> error + NameObj"
where
  "deduplicateNewName h settings newName file listedFiles =
     (let t = dedupTarget h newName file in
      case scanSiblings h settings newName file listedFiles of
        None \<Rightarrow> Inl SyntaxError
      | Some st \<Rightarrow>
          Inr \<lparr> stem = stem t, extension = extension t, name = finalNameOf h settings t st \<rparr>)"

text \<open>
  For the statements about the scan: the names it compares with (the listing's base names
  other than the file's own name), and the numbers it has collected when it ends.
\<close>

definition siblingNames :: "TFile \<Rightarrow> jsstring list \<Rightarrow> jsstring list" where
  "siblingNames file listedFiles = filter (\<lambda>n. n \<noteq> tf_name file) (map basename listedFiles)"

definition collectedNumbers ::
  "host \<Rightarrow> PluginSettings \<Rightarrow> jsstring \<Rightarrow> TFile \<Rightarrow> jsstring list \<Rightarrow> jsnum list"
where
  "collectedNumbers h settings newName file listedFiles =
     (case scanSiblings h settings newName file listedFiles of
        None \<Rightarrow> []
      | Some st \<Rightarrow> dupNameNumbers st)"

text \<open>A file as Obsidian creates it for a pasted image.\<close>

definition pastedFile :: TFile where
  "pastedFile = \<lparr> tf_name = js ''Pasted image 20220408.png'', tf_extension = js ''png'' \<rparr>"

section \<open>main.ts: the name renameFile hands to deduplicateNewName\<close>

text \<open>
  \<^verbatim>\<open>if (!file || !inputNewName) throw new Error('Invalid file or new name');
  inputNewName = sanitizer.filename(inputNewName);
  if (!inputNewName) throw new Error('New name cannot be empty after sanitization');
  const { extension } = parseFileName(inputNewName);
  if (extension) { nameToDedup = inputNewName; }
  else { nameToDedup = `${inputNewName}.${getActualExtension(file.extension, this.settings)}`; }\<close>
\<close>

definition nameToDedup :: "host \<Rightarrow> PluginSettings \<Rightarrow> TFile \<Rightarrow> jsstring \<Rightarrow> error + jsstring" where
  "nameToDedup h settings file inputNewName =
     (if inputNewName = [] then Inl InvalidName
      else
        let sanitized = filename h inputNewName in
        if sanitized = [] then Inl EmptyAfterSanitization
        else if extension (parseFileName h sanitized) \<noteq> [] then Inr sanitized
        else Inr (sanitized @ js ''.'' @ getActualExtension h (tf_extension file) settings))"

section \<open>A host for closed evaluations\<close>

text \<open>
  The closed examples below are ASCII names whose patterns lie inside the modelled
  syntax, where no field of the host is consulted; they are evaluated with this one.
\<close>

definition bareHost :: host where
  "bareHost =
     \<lparr> unicodeL = (\<lambda>_. False), lowerCaseU = (\<lambda>s. s), compileExec = (\<lambda>_. None),
       compileRemove = (\<lambda>_. None), expNotation = (\<lambda>_. []) \<rparr>"

section \<open>The sanitizer is idempotent\<close>

text \<open>
  What \<open>stripNotAllowed\<close> leaves: allowed code points only, read as the expression
  reads them. Stripping changes no such string, and trimming keeps the property, since a
  white-space unit is no surrogate and so never half of a pair.
\<close>

fun allAllowed :: "host \<Rightarrow> jsstring \<Rightarrow> bool" where
  "allAllowed h [] = True"
| "allAllowed h [c] = filenameAllowed h (unat c)"
| "allAllowed h (c # d # s) =
     (if isHighSurrogate c \<and> isLowSurrogate d then
        filenameAllowed h (codePoint c d) \<and> allAllowed h s
      else filenameAllowed h (unat c) \<and> allAllowed h (d # s))"

lemma unat_filenamePunctuation:
  "map unat filenamePunctuation =
     [126, 33, 64, 36, 38, 42, 40, 41, 45, 95, 61, 43, 123, 125, 59, 44, 60, 46, 62, 63, 32,
      96, 39, 34]"
  by (simp add: filenamePunctuation_def js_def)

lemma allowed_not_surrogate:
  "filenameAllowed h (unat c) \<Longrightarrow> \<not> isHighSurrogate c \<and> \<not> isLowSurrogate c"
  unfolding filenameAllowed_def isLetter_def isHighSurrogate_def isLowSurrogate_def
    unat_filenamePunctuation
  by (auto simp: word_le_nat_alt split: if_splits)

lemma ws_not_surrogate:
  "isWhiteSpace c \<Longrightarrow> \<not> isHighSurrogate c \<and> \<not> isLowSurrogate c"
  unfolding isWhiteSpace_def isHighSurrogate_def isLowSurrogate_def
  by (auto simp: word_le_nat_alt)

lemma allAllowed_Cons:
  "\<not> isHighSurrogate c \<Longrightarrow>
   allAllowed h (c # s) = (filenameAllowed h (unat c) \<and> allAllowed h s)"
  by (cases s) auto

lemma allAllowed_strip: "allAllowed h (stripNotAllowed h s)"
  by (induction h s rule: stripNotAllowed.induct)
     (auto simp: allAllowed_Cons allowed_not_surrogate)

lemma strip_allAllowed: "allAllowed h s \<Longrightarrow> stripNotAllowed h s = s"
  by (induction h s rule: stripNotAllowed.induct) (auto split: if_splits)

lemma allAllowed_dropWhile: "allAllowed h s \<Longrightarrow> allAllowed h (dropWhile isWhiteSpace s)"
  by (induction s) (auto simp: allAllowed_Cons ws_not_surrogate)

lemma allAllowed_butlast:
  "allAllowed h (s @ [c]) \<Longrightarrow> \<not> isLowSurrogate c \<Longrightarrow> allAllowed h s"
  by (induction h s rule: allAllowed.induct) (auto split: if_splits)

lemma allAllowed_dropEnd:
  "allAllowed h s \<Longrightarrow> allAllowed h (rev (dropWhile isWhiteSpace (rev s)))"
proof (induction s rule: rev_induct)
  case Nil
  then show ?case by simp
next
  case (snoc x xs)
  show ?case
  proof (cases "isWhiteSpace x")
    case True
    with snoc.prems have "allAllowed h xs"
      by (auto dest: allAllowed_butlast simp: ws_not_surrogate)
    with snoc.IH True show ?thesis by simp
  next
    case False
    with snoc.prems show ?thesis by simp
  qed
qed

lemma allAllowed_trim: "allAllowed h s \<Longrightarrow> allAllowed h (trim s)"
  unfolding trim_def by (intro allAllowed_dropEnd allAllowed_dropWhile)

lemma dropWhile_dropEnd:
  assumes "t = [] \<or> \<not> P (hd t)"
  shows "dropWhile P (rev (dropWhile P (rev t))) = rev (dropWhile P (rev t))"
proof (cases t)
  case Nil
  then show ?thesis by simp
next
  case (Cons x t')
  with assms have nx: "\<not> P x" by simp
  have "dropWhile P (rev t' @ [x]) = dropWhile P (rev t') @ [x]"
    using nx by (simp add: dropWhile_append)
  then show ?thesis using Cons nx by simp
qed

lemma trim_trim: "trim (trim s) = trim s"
proof -
  let ?t = "dropWhile isWhiteSpace s"
  have h: "?t = [] \<or> \<not> isWhiteSpace (hd ?t)"
    using hd_dropWhile [of isWhiteSpace s] by blast
  show ?thesis
    unfolding trim_def by (simp add: dropWhile_dropEnd [of ?t isWhiteSpace, OF h])
qed

text \<open>
  C5: the filename sanitizer is idempotent: for every string \<open>s\<close> (and whatever the
  Unicode letter table is), sanitizing the sanitized string gives the sanitized string.
\<close>

theorem filename_idempotent: "filename h (filename h s) = filename h s"
  unfolding filename_def
  by (simp add: strip_allAllowed allAllowed_trim allAllowed_strip trim_trim)

text \<open>
  C6: for every user-supplied string, \<open>sanitizer.delimiter\<close> returns a non-empty
  string: the sanitized input when that is non-empty and \<open>-\<close> when sanitizing leaves
  nothing; so the delimiter the settings tab stores is never empty, as the default is not.
\<close>

theorem delimiter_never_empty:
  "delimiter h s \<noteq> []
   \<and> delimiter h s = (if filename h s = [] then js ''-'' else filename h s)
   \<and> dupNumberDelimiter (onChangeDupNumberDelimiter h settings s) \<noteq> []
   \<and> dupNumberDelimiter DEFAULT_SETTINGS \<noteq> []"
  by (simp add: delimiter_def onChangeDupNumberDelimiter_def DEFAULT_SETTINGS_def Let_def js_def)

section \<open>Extensions and file names\<close>

lemma lastIndexOf_none: "c \<notin> set s \<Longrightarrow> lastIndexOf s c = - 1"
  by (induction s) (auto simp: Let_def)

lemma lastIndexOf_last: "c \<notin> set b \<Longrightarrow> lastIndexOf (a @ c # b) c = int (length a)"
  by (induction a) (auto simp: Let_def lastIndexOf_none)

lemma nat_int_Suc: "nat (int n + 1) = Suc n"
  by simp

lemma parseFileName_no_dot:
  "of_char CHR ''.'' \<notin> set s \<Longrightarrow> parseFileName h s = \<lparr> stem = s, extension = [] \<rparr>"
  by (simp add: parseFileName_def lastIndexOf_none Let_def)

lemma parseFileName_last_dot:
  "of_char CHR ''.'' \<notin> set b \<Longrightarrow>
   parseFileName h (a @ of_char CHR ''.'' # b) = \<lparr> stem = a, extension = toLowerCase h b \<rparr>"
  using lastIndexOf_last [of "of_char CHR ''.''" b a]
  by (cases "a = []")
     (simp_all add: parseFileName_def Let_def slice_def sliceFrom_def nat_int_Suc
        del: of_char_Char)

lemma toLowerCase_ascii_examples:
  "toLowerCase h (js ''PNG'') = js ''png''" "toLowerCase h (js ''png'') = js ''png''"
  "toLowerCase h (js ''JPG'') = js ''jpg''" "toLowerCase h (js ''gitignore'') = js ''gitignore''"
  by (simp_all add: toLowerCase_def js_def isAsciiUpper_def)

text \<open>
  C7: \<open>getActualExtension\<close> returns the lower-cased extension, except that a
  lower-cased extension \<open>png\<close> becomes \<open>webp\<close> when the PNG-to-WebP flag is set and
  \<open>jpeg\<close> when only the PNG-to-JPEG flag is set.
\<close>

theorem getActualExtension_cases:
  "(toLowerCase h e = js ''png'' \<and> pngToWebp s \<longrightarrow> getActualExtension h e s = js ''webp'')
   \<and> (toLowerCase h e = js ''png'' \<and> \<not> pngToWebp s \<and> pngToJpeg s \<longrightarrow>
        getActualExtension h e s = js ''jpeg'')
   \<and> (toLowerCase h e \<noteq> js ''png'' \<or> (\<not> pngToWebp s \<and> \<not> pngToJpeg s) \<longrightarrow>
        getActualExtension h e s = toLowerCase h e)"
  by (auto simp: getActualExtension_def Let_def)

theorem getActualExtension_cases_witness:
  "getActualExtension bareHost (js ''PNG'') (DEFAULT_SETTINGS\<lparr>pngToWebp := True\<rparr>) = js ''webp''
   \<and> getActualExtension bareHost (js ''PNG'') (DEFAULT_SETTINGS\<lparr>pngToJpeg := True\<rparr>) = js ''jpeg''
   \<and> getActualExtension bareHost (js ''PNG'') DEFAULT_SETTINGS = js ''png''
   \<and> getActualExtension bareHost (js ''JPG'') (DEFAULT_SETTINGS\<lparr>pngToWebp := True\<rparr>) = js ''jpg''"
  using getActualExtension_cases [of bareHost "js ''PNG''" "DEFAULT_SETTINGS\<lparr>pngToWebp := True\<rparr>"]
    getActualExtension_cases [of bareHost "js ''PNG''" "DEFAULT_SETTINGS\<lparr>pngToJpeg := True\<rparr>"]
    getActualExtension_cases [of bareHost "js ''PNG''" DEFAULT_SETTINGS]
    getActualExtension_cases [of bareHost "js ''JPG''" "DEFAULT_SETTINGS\<lparr>pngToWebp := True\<rparr>"]
  by (simp add: toLowerCase_ascii_examples DEFAULT_SETTINGS_def) (simp add: js_def)

text \<open>
  C9: \<open>parseFileName\<close> is total and splits at the last dot: the empty name gives an
  empty stem and extension; a name with no dot is all stem; a name whose only dot is its
  first character has an empty stem and the rest, lower-cased, as extension; in general
  the stem is the text before the last dot and the extension the lower-cased text after
  (and a name with a dot has a last dot, so the cases cover every name).
\<close>

theorem parseFileName_splits_at_last_dot:
  "parseFileName h [] = \<lparr> stem = [], extension = [] \<rparr>
   \<and> (of_char CHR ''.'' \<notin> set s \<longrightarrow> parseFileName h s = \<lparr> stem = s, extension = [] \<rparr>)
   \<and> (of_char CHR ''.'' \<notin> set b \<longrightarrow>
        parseFileName h (of_char CHR ''.'' # b) = \<lparr> stem = [], extension = toLowerCase h b \<rparr>)
   \<and> (of_char CHR ''.'' \<notin> set b \<longrightarrow>
        parseFileName h (a @ of_char CHR ''.'' # b) = \<lparr> stem = a, extension = toLowerCase h b \<rparr>)
   \<and> (of_char CHR ''.'' \<in> set s \<longrightarrow>
        (\<exists>a b. s = a @ of_char CHR ''.'' # b \<and> of_char CHR ''.'' \<notin> set b))"
  using parseFileName_no_dot [of s h] parseFileName_last_dot [of b h a]
    parseFileName_last_dot [of b h "[]"] split_list_last [of "of_char CHR ''.''" s]
  by (simp add: parseFileName_def del: of_char_Char)

theorem parseFileName_splits_at_last_dot_witness:
  "parseFileName bareHost (js ''README'') = \<lparr> stem = js ''README'', extension = [] \<rparr>
   \<and> parseFileName bareHost (js ''.gitignore'') = \<lparr> stem = [], extension = js ''gitignore'' \<rparr>
   \<and> parseFileName bareHost (js ''Foo.Bar.PNG'') = \<lparr> stem = js ''Foo.Bar'', extension = js ''png'' \<rparr>"
proof -
  have a: "of_char CHR ''.'' \<notin> set (js ''README'')"
    and b: "of_char CHR ''.'' \<notin> set (js ''gitignore'')"
    and c: "of_char CHR ''.'' \<notin> set (js ''PNG'')"
    by (simp_all add: js_def)
  have d: "js ''.gitignore'' = of_char CHR ''.'' # js ''gitignore''"
    and e: "js ''Foo.Bar.PNG'' = js ''Foo.Bar'' @ of_char CHR ''.'' # js ''PNG''"
    by (simp_all add: js_def)
  show ?thesis
    using parseFileName_splits_at_last_dot [of bareHost "js ''README''" "js ''gitignore''" "[]"]
      parseFileName_splits_at_last_dot [of bareHost "js ''README''" "js ''PNG''" "js ''Foo.Bar''"]
      a b c
    unfolding d e by (simp add: toLowerCase_ascii_examples del: of_char_Char)
qed

section \<open>The meaningfulness check\<close>

lemma classAtoms_delimiter:
  "0x5C \<notin> set d \<Longrightarrow> 0x5D \<notin> set d \<Longrightarrow>
   classAtoms (d @ [0x5C, 0x73]) = Some (map Unit d @ [WhiteSpaceEscape])"
proof (induction d)
  case Nil
  then show ?case by simp
next
  case (Cons c d)
  obtain x xs where x: "d @ [0x5C, 0x73] = x # xs" by (cases d) auto
  from Cons have "classAtoms (d @ [0x5C, 0x73]) = Some (map Unit d @ [WhiteSpaceEscape])"
    and "c \<noteq> 0x5C" and "c \<noteq> 0x5D" by auto
  then show ?case by (simp add: x)
qed

lemma classRanges_no_hyphen:
  "Unit 0x2D \<notin> set as \<Longrightarrow> classRanges (as @ [b]) = map Single (as @ [b])"
proof (induction as)
  case Nil
  then show ?case by simp
next
  case (Cons a as)
  then have ih: "classRanges (as @ [b]) = map Single (as @ [b])" by simp
  show ?case
  proof (cases as)
    case Nil
    then show ?thesis by simp
  next
    case (Cons d as')
    obtain y ys where y: "as' @ [b] = y # ys" by (cases as') auto
    have "d \<noteq> Unit 0x2D" using Cons.prems Cons by auto
    then have "classRanges (a # d # y # ys) = Single a # classRanges (d # y # ys)" by simp
    with ih show ?thesis unfolding Cons by (simp add: y)
  qed
qed

lemma isNameMeaningful_no_hyphen:
  assumes "0x5C \<notin> set d" and "0x5D \<notin> set d" and "0x2D \<notin> set d" and "d = [] \<or> hd d \<noteq> 0x5E"
  shows "isNameMeaningful h n d = Inr (list_ex (\<lambda>c. c \<notin> set d \<and> \<not> isWhiteSpace c) n)"
proof -
  let ?p = "js ''['' @ d @ [0x5C, 0x73, 0x5D]"
  have body: "classBody ?p = Some (d @ [0x5C, 0x73])"
    using assms(4) by (cases d) (auto simp: classBody_def js_def butlast_append)
  have atoms: "classAtoms (d @ [0x5C, 0x73]) = Some (map Unit d @ [WhiteSpaceEscape])"
    using assms(1,2) by (rule classAtoms_delimiter)
  have "Unit 0x2D \<notin> set (map Unit d)" using assms(3) by auto
  then have items: "classRanges (map Unit d @ [WhiteSpaceEscape]) = map Single (map Unit d @ [WhiteSpaceEscape])"
    by (rule classRanges_no_hyphen)
  have ok: "list_ex outOfOrder (map Single (map Unit d @ [WhiteSpaceEscape])) = False"
    by (simp add: list_ex_iff)
  have mem: "list_ex (\<lambda>i. inItem i c) (map Single (map Unit d @ [WhiteSpaceEscape]))
             = (c \<in> set d \<or> isWhiteSpace c)" for c
    by (auto simp: list_ex_iff)
  have "removeAllMatches h ?p = Some (filter (\<lambda>c. \<not> (c \<in> set d \<or> isWhiteSpace c)))"
    by (simp only: removeAllMatches_def body atoms items option.case Let_def ok mem if_False)
  then show ?thesis
    by (simp add: isNameMeaningful_def filter_empty_conv list_ex_iff)
qed

lemma isNameMeaningful_default:
  "isNameMeaningful h n (js ''-'') = Inr (list_ex (\<lambda>c. c \<noteq> 0x2D \<and> \<not> isWhiteSpace c) n)"
  by (simp add: isNameMeaningful_def removeAllMatches_def classBody_def js_def filter_empty_conv list_ex_iff)

text \<open>
  C4: the claim is that, for every sanitized non-empty delimiter, exactly the stems made
  of delimiter characters and white space are rejected. It holds for a delimiter without
  \<open>-\<close> and for the default \<open>-\<close> (the two lemmas above). The code pastes the
  delimiter unescaped into a character class, where a \<open>-\<close> between two characters
  makes a range: with the delimiter \<open>a-c\<close> the stem \<open>b\<close> is rejected and the stem
  \<open>-\<close> accepted, with \<open>c-a\<close> the constructor throws, and with \<open>_-_\<close> the stem
  \<open>_-_\<close>, the delimiter itself, is accepted. These delimiters pass
  \<open>sanitizer.delimiter\<close> unchanged.
\<close>

theorem isNameMeaningful_hyphen_in_delimiter:
  "delimiter h (js ''a-c'') = js ''a-c''
   \<and> isNameMeaningful h (js ''b'') (js ''a-c'') = Inr False
   \<and> isNameMeaningful h (js ''-'') (js ''a-c'') = Inr True
   \<and> isNameMeaningful h (js ''b'') (js ''c-a'') = Inl SyntaxError
   \<and> delimiter h (js ''_-_'') = js ''_-_''
   \<and> isNameMeaningful h (js ''_-_'') (js ''_-_'') = Inr True"
proof -
  have "delimiter h (js ''a-c'') = js ''a-c''" "delimiter h (js ''_-_'') = js ''_-_''"
    by (simp_all add: delimiter_def filename_def trim_def filenameAllowed_def isLetter_def
        filenamePunctuation_def isHighSurrogate_def isLowSurrogate_def isWhiteSpace_def js_def)
  moreover have "isNameMeaningful h (js ''b'') (js ''a-c'') = Inr False"
    "isNameMeaningful h (js ''-'') (js ''a-c'') = Inr True"
    "isNameMeaningful h (js ''b'') (js ''c-a'') = Inl SyntaxError"
    "isNameMeaningful h (js ''_-_'') (js ''_-_'') = Inr True"
    by (simp_all add: isNameMeaningful_def removeAllMatches_def classBody_def isWhiteSpace_def js_def)
  ultimately show ?thesis by blast
qed

section \<open>Deduplication\<close>

lemmas dedup_eval =
  deduplicateNewName_def scanSiblings_def dedupTarget_def exactFileName_def finalNameOf_def
  parseFileName_def slice_def sliceFrom_def toLowerCase_def isAsciiUpper_def
  dupNamePattern_def escapeRegExp_def regExpSpecial_def newRegExp_def plainToken_def
  numberedShape_def execNumbered_def scanStep_def basename_def parseInt10_def isWhiteSpace_def isDigit_def
  digitsValue_def isNaN_def mathMax_def numberToString_def DEFAULT_SETTINGS_def pastedFile_def
  collectedNumbers_def siblingNames_def js_def Let_def

subsection \<open>The expression compiles when the extension has no syntax character\<close>

text \<open>
  The escaped stem and delimiter are read back as literals, whatever they contain. For
  an extension without any of the characters \<open>escapeRegExp\<close> would escape, the pattern
  is \<open>^\<close>, literals, \<open>(\d+)\<close>, literals, \<open>$\<close>: the constructor does not throw, the
  function returns, and a sibling gives a number exactly when it is the literals with a
  non-empty run of digits at the place of the group.
\<close>

lemma special_not_d: "c \<in> set regExpSpecial \<Longrightarrow> c \<noteq> 0x64"
  by (auto simp: regExpSpecial_def js_def)

lemma plainToken_plain: "c \<notin> set regExpSpecial \<Longrightarrow> plainToken c = Some (TLit c)"
  by (auto simp: plainToken_def regExpSpecial_def js_def)

lemma tokenize_plain_unit:
  "c \<notin> set regExpSpecial \<Longrightarrow> tokenize (c # rest) = map_option (\<lambda>ts. TLit c # ts) (tokenize rest)"
proof -
  assume c: "c \<notin> set regExpSpecial"
  then have "c \<noteq> 0x5C" by (auto simp: regExpSpecial_def)
  with c show ?thesis by (cases rest) (simp_all add: plainToken_plain)
qed

lemma tokenize_escaped_unit:
  "c \<in> set regExpSpecial \<Longrightarrow> tokenize (0x5C # c # rest) = map_option (\<lambda>ts. TLit c # ts) (tokenize rest)"
  by (simp add: special_not_d)

lemma tokenize_escapeRegExp:
  "tokenize (escapeRegExp s @ rest) = map_option (\<lambda>ts. map TLit s @ ts) (tokenize rest)"
proof (induction s)
  case Nil
  then show ?case by (simp add: escapeRegExp_def option.map_ident)
next
  case (Cons c s)
  have e: "escapeRegExp (c # s) = (if c \<in> set regExpSpecial then [0x5C, c] else [c]) @ escapeRegExp s"
    by (simp add: escapeRegExp_def)
  show ?case
  proof (cases "c \<in> set regExpSpecial")
    case True
    then show ?thesis
      using Cons tokenize_escaped_unit [OF True, of "escapeRegExp s @ rest"]
      by (simp add: e option.map_comp comp_def)
  next
    case False
    then show ?thesis
      using Cons tokenize_plain_unit [OF False, of "escapeRegExp s @ rest"]
      by (simp add: e option.map_comp comp_def)
  qed
qed

lemma tokenize_plain:
  "list_all (\<lambda>c. c \<notin> set regExpSpecial) e \<Longrightarrow>
   tokenize (e @ rest) = map_option (\<lambda>ts. map TLit e @ ts) (tokenize rest)"
proof (induction e)
  case Nil
  then show ?case by (simp add: option.map_ident)
next
  case (Cons c e)
  then have c: "c \<notin> set regExpSpecial" and ih: "tokenize (e @ rest) = map_option (\<lambda>ts. map TLit e @ ts) (tokenize rest)"
    by simp_all
  show ?case
    using tokenize_plain_unit [OF c, of "e @ rest"] ih
    by (simp add: option.map_comp comp_def)
qed


lemma tokenize_raw:
  "tokenize (0x5E # rest) = map_option (\<lambda>ts. TBol # ts) (tokenize rest)"
  "tokenize (0x24 # rest) = map_option (\<lambda>ts. TEol # ts) (tokenize rest)"
  "tokenize (0x28 # rest) = map_option (\<lambda>ts. TOpen # ts) (tokenize rest)"
  "tokenize (0x29 # rest) = map_option (\<lambda>ts. TClose # ts) (tokenize rest)"
  "tokenize (0x2B # rest) = map_option (\<lambda>ts. TPlus # ts) (tokenize rest)"
  "tokenize (0x5C # 0x64 # rest) = map_option (\<lambda>ts. TDigit # ts) (tokenize rest)"
  "tokenize (0x5C # 0x2E # rest) = map_option (\<lambda>ts. TLit 0x2E # ts) (tokenize rest)"
  by (cases rest; simp add: plainToken_def regExpSpecial_def js_def)+

lemma tokenize_Nil: "tokenize [] = Some []"
  by simp

lemma tokenize_dupNamePattern:
  assumes "list_all (\<lambda>c. c \<notin> set regExpSpecial) ext"
  shows "tokenize (dupNamePattern settings st ext) =
           Some (TBol # map TLit (if dupNumberAtStart settings then [] else st @ dupNumberDelimiter settings)
                 @ [TOpen, TDigit, TPlus, TClose]
                 @ map TLit (if dupNumberAtStart settings then dupNumberDelimiter settings @ st @ 0x2E # ext
                             else 0x2E # ext)
                 @ [TEol])"
  by (simp add: dupNamePattern_def Let_def js_def tokenize_raw tokenize_escapeRegExp
        tokenize_plain [OF assms] del: tokenize.simps(2,3))

lemma parensMatch_lits: "parensMatch n (map TLit s @ ts) = parensMatch n ts"
  by (induction s) simp_all

lemma nothingToRepeat_lits_open:
  "nothingToRepeat p (map TLit s @ TOpen # ts) = nothingToRepeat False ts"
  by (induction s arbitrary: p) simp_all

lemma nothingToRepeat_lits_eol:
  "nothingToRepeat p (map TLit s @ [TEol]) = False"
  by (induction s arbitrary: p) simp_all

lemma takeWhile_lits:
  "\<not> isLit t \<Longrightarrow> map litOf (takeWhile isLit (map TLit s @ t # ts)) = s"
  "\<not> isLit t \<Longrightarrow> dropWhile isLit (map TLit s @ t # ts) = t # ts"
  by (induction s) simp_all

lemma newRegExp_numbered:
  assumes "tokenize p = Some (TBol # map TLit pre @ [TOpen, TDigit, TPlus, TClose] @ map TLit post @ [TEol])"
  shows "newRegExp h p = Some (execNumbered pre post)"
proof -
  let ?ts = "TBol # map TLit pre @ [TOpen, TDigit, TPlus, TClose] @ map TLit post @ [TEol]"
  have a: "parensMatch 0 ?ts"
    by (simp add: parensMatch_lits)
  have b: "\<not> nothingToRepeat False ?ts"
    by (simp add: nothingToRepeat_lits_open nothingToRepeat_lits_eol)
  have c: "numberedShape ?ts = Some (pre, post)"
    using takeWhile_lits [of TOpen pre "TDigit # TPlus # TClose # map TLit post @ [TEol]"]
      takeWhile_lits [of TEol post "[]"]
    by (simp add: numberedShape_def)
  show ?thesis
    unfolding newRegExp_def assms using a b c by simp
qed

lemma newRegExp_dupNamePattern:
  assumes "list_all (\<lambda>c. c \<notin> set regExpSpecial) ext"
  shows "newRegExp h (dupNamePattern settings st ext) =
           Some (execNumbered
                   (if dupNumberAtStart settings then [] else st @ dupNumberDelimiter settings)
                   (if dupNumberAtStart settings then dupNumberDelimiter settings @ st @ 0x2E # ext
                    else 0x2E # ext))"
  by (rule newRegExp_numbered) (simp add: tokenize_dupNamePattern [OF assms])

lemma split_in_three: "s = take a s @ take n (drop a s) @ drop (a + n) s"
  by (metis add.commute append_take_drop_id drop_drop)

lemma execNumbered_iff:
  "execNumbered pre post subject = Some (Some ds) \<longleftrightarrow>
     subject = pre @ ds @ post \<and> ds \<noteq> [] \<and> list_all isDigit ds"
proof
  let ?n = "length subject - length pre - length post"
  assume "execNumbered pre post subject = Some (Some ds)"
  then have l: "length pre + length post < length subject"
    and p: "take (length pre) subject = pre"
    and q: "drop (length pre + ?n) subject = post"
    and d: "ds = take ?n (drop (length pre) subject)"
    and g: "list_all isDigit ds"
    by (auto simp: execNumbered_def Let_def split: if_splits)
  have "subject = pre @ ds @ post"
    using split_in_three [of subject "length pre" ?n] unfolding p q d [symmetric] .
  moreover have "ds \<noteq> []" using l d by auto
  ultimately show "subject = pre @ ds @ post \<and> ds \<noteq> [] \<and> list_all isDigit ds" using g by simp
next
  assume "subject = pre @ ds @ post \<and> ds \<noteq> [] \<and> list_all isDigit ds"
  then show "execNumbered pre post subject = Some (Some ds)"
    by (auto simp: execNumbered_def Let_def)
qed

lemma execNumbered_defined: "execNumbered pre post subject \<noteq> Some None"
  by (simp add: execNumbered_def Let_def)

lemma deduplicateNewName_returns:
  assumes "list_all (\<lambda>c. c \<notin> set regExpSpecial) (extension (dedupTarget h newName file))"
  shows "\<exists>r. deduplicateNewName h settings newName file listed = Inr r"
  by (simp add: deduplicateNewName_def scanSiblings_def Let_def newRegExp_dupNamePattern [OF assms])

subsection \<open>The loop over the listing\<close>

lemma scanStep_exist:
  "isNewNameExist (scanStep exec fn exact f st) =
     (isNewNameExist st \<or> (basename f \<noteq> fn \<and> basename f = exact))"
  by (auto simp: scanStep_def Let_def split: option.splits)

lemma scanStep_not_NaN:
  "NaN \<notin> set (dupNameNumbers st) \<Longrightarrow> NaN \<notin> set (dupNameNumbers (scanStep exec fn exact f st))"
  by (auto simp: scanStep_def Let_def isNaN_def split: option.splits)

lemma scanStep_parsed:
  "n \<in> set (dupNameNumbers (scanStep exec fn exact f st)) \<Longrightarrow>
   n \<in> set (dupNameNumbers st)
   \<or> (\<exists>g. exec (basename f) = Some (Some g) \<and> g \<noteq> [] \<and> n = parseInt10 g)"
  by (auto simp: scanStep_def Let_def split: option.splits if_splits)

lemma scanFiles_exist:
  "isNewNameExist (scanFiles exec fn exact files st) =
     (isNewNameExist st \<or> exact \<in> set (filter (\<lambda>n. n \<noteq> fn) (map basename files)))"
  by (induction files arbitrary: st) (auto simp: scanStep_exist)

lemma scanFiles_not_NaN:
  "NaN \<notin> set (dupNameNumbers st) \<Longrightarrow>
   NaN \<notin> set (dupNameNumbers (scanFiles exec fn exact files st))"
  by (induction files arbitrary: st) (simp_all add: scanStep_not_NaN)

lemma scanFiles_parsed:
  "n \<in> set (dupNameNumbers (scanFiles exec fn exact files st)) \<Longrightarrow>
   n \<in> set (dupNameNumbers st)
   \<or> (\<exists>f \<in> set files. \<exists>g. exec (basename f) = Some (Some g) \<and> g \<noteq> [] \<and> n = parseInt10 g)"
proof (induction files arbitrary: st)
  case Nil
  then show ?case by simp
next
  case (Cons f files)
  from Cons.prems have "n \<in> set (dupNameNumbers (scanFiles exec fn exact files (scanStep exec fn exact f st)))"
    by simp
  from Cons.IH [OF this] show ?case
    using scanStep_parsed [of n exec fn exact f st] by auto
qed

subsection \<open>Parsed numbers, their maximum and its successor\<close>

lemma max2_NaN: "max2 x y = NaN \<longleftrightarrow> x = NaN \<or> y = NaN"
  by (cases x; cases y) auto

lemma foldl_max2_not_NaN: "a \<noteq> NaN \<Longrightarrow> NaN \<notin> set xs \<Longrightarrow> foldl max2 a xs \<noteq> NaN"
proof (induction xs arbitrary: a)
  case Nil
  then show ?case by simp
next
  case (Cons x xs)
  from Cons.prems have "max2 a x \<noteq> NaN" by (simp add: max2_NaN) metis
  moreover from Cons.prems have "NaN \<notin> set xs" by simp
  ultimately have "foldl max2 (max2 a x) xs \<noteq> NaN" by (rule Cons.IH)
  then show ?case by simp
qed

lemma mathMax_not_NaN: "NaN \<notin> set xs \<Longrightarrow> mathMax xs \<noteq> NaN"
  unfolding mathMax_def by (rule foldl_max2_not_NaN) simp_all

lemma toNumber_not_NaN: "toNumber i \<noteq> NaN"
  by (simp add: toNumber_def Let_def)

lemma plusOne_not_NaN: "x \<noteq> NaN \<Longrightarrow> plusOne x \<noteq> NaN"
  by (cases x) (simp_all add: toNumber_not_NaN)

lemma foldl_max2_Fin: "foldl max2 (Fin a) (map Fin ns) = Fin (Max (insert a (set ns)))"
proof (induction ns arbitrary: a)
  case Nil
  then show ?case by simp
next
  case (Cons n ns)
  have "Max (insert (max a n) (set ns)) = Max (insert a (insert n (set ns)))"
    by (metis List.finite_set Max_insert Max_singleton finite.insertI insert_not_empty max.assoc)
  then show ?case using Cons by simp
qed

lemma mathMax_Fin: "ns \<noteq> [] \<Longrightarrow> mathMax (map Fin ns) = Fin (Max (set ns))"
  unfolding mathMax_def by (cases ns) (simp_all add: foldl_max2_Fin)

lemma Max_int: "ns \<noteq> [] \<Longrightarrow> Max (int ` set ns) = int (Max (set ns))"
proof -
  assume "ns \<noteq> []"
  then have "int (Max (set ns)) = Max (int ` set ns)"
    by (intro mono_Max_commute) (auto simp: mono_def)
  then show ?thesis by simp
qed

lemma mathMax_nat:
  "ns \<noteq> [] \<Longrightarrow> mathMax (map (\<lambda>n. Fin (int n)) ns) = Fin (int (Max (set ns)))"
  using mathMax_Fin [of "map int ns"] by (simp add: Max_int comp_def)

lemma toNumber_small: "0 \<le> i \<Longrightarrow> i < 2 ^ 53 \<Longrightarrow> toNumber i = Fin i"
  by (simp add: toNumber_def Let_def nat_less_iff)

lemma toNumber_2_53: "toNumber 9007199254740992 = Fin 9007199254740992"
  unfolding toNumber_def roundToDouble_def Let_def by simp

lemma toNumber_exact:
  assumes "0 \<le> i" and "i \<le> 2 ^ 53"
  shows "toNumber i = Fin i"
proof (cases "i = 9007199254740992")
  case True
  then show ?thesis by (simp only: toNumber_2_53)
next
  case False
  with assms(2) have "i < 2 ^ 53" by simp
  with assms(1) show ?thesis by (rule toNumber_small)
qed

lemma toNumber_digits:
  "toNumber 1 = Fin 1" "toNumber 2 = Fin 2" "toNumber 3 = Fin 3" "toNumber 4 = Fin 4"
  by (simp_all add: toNumber_small)

lemma numberToString_nat: "n < 10 ^ 21 \<Longrightarrow> numberToString h (Fin (int n)) = decimal n"
proof -
  assume "n < 10 ^ 21"
  then have "int n < 10 ^ 21" by (metis of_nat_less_iff of_nat_numeral of_nat_power)
  then show ?thesis by (simp add: numberToString_def)
qed

lemma next_number:
  assumes "ns \<noteq> []" and "\<forall>n \<in> set ns. n < 2 ^ 53"
  shows "numberToString h (plusOne (mathMax (map (\<lambda>n. Fin (int n)) ns))) = decimal (Max (set ns) + 1)"
proof -
  have "Max (set ns) \<in> set ns" using assms(1) by (intro Max_in) simp_all
  with assms(2) have m: "Max (set ns) < 2 ^ 53" by blast
  then have "int (Max (set ns)) + 1 \<le> 2 ^ 53"
    by (metis add.commute of_nat_Suc of_nat_le_iff of_nat_numeral of_nat_power Suc_leI)
  then have p: "plusOne (Fin (int (Max (set ns)))) = Fin (int (Max (set ns) + 1))"
    by (simp add: toNumber_exact)
  have a: "mathMax (map (\<lambda>n. Fin (int n)) ns) = Fin (int (Max (set ns)))"
    using assms(1) by (rule mathMax_nat)
  have "Max (set ns) + 1 < 10 ^ 21" using m by simp
  then have "numberToString h (Fin (int (Max (set ns) + 1))) = decimal (Max (set ns) + 1)"
    by (rule numberToString_nat)
  then show ?thesis by (simp only: a p)
qed


text \<open>
  C8: whatever the listing, the scan collects only numbers that are the integer parse of
  the expression's first group for some listed sibling, and only when that parse is not
  NaN; so no collected number, their maximum, and the maximum plus one are ever NaN.
\<close>

theorem collected_numbers_never_NaN:
  assumes "scanSiblings h settings newName file listed = Some st"
  shows "NaN \<notin> set (dupNameNumbers st)
         \<and> mathMax (dupNameNumbers st) \<noteq> NaN
         \<and> plusOne (mathMax (dupNameNumbers st)) \<noteq> NaN
         \<and> (\<exists>exec. newRegExp h (dupNamePattern settings (stem (dedupTarget h newName file))
                       (extension (dedupTarget h newName file))) = Some exec
               \<and> (\<forall>n \<in> set (dupNameNumbers st). \<exists>f \<in> set listed. \<exists>g.
                     exec (basename f) = Some (Some g) \<and> g \<noteq> [] \<and> n = parseInt10 g
                     \<and> \<not> isNaN (parseInt10 g)))"
proof -
  let ?t = "dedupTarget h newName file"
  from assms obtain exec where
    e: "newRegExp h (dupNamePattern settings (stem ?t) (extension ?t)) = Some exec" and
    st: "st = scanFiles exec (tf_name file) (exactFileName ?t) listed
               \<lparr> isNewNameExist = False, dupNameNumbers = [] \<rparr>"
    by (auto simp: scanSiblings_def Let_def split: option.splits)
  have n: "NaN \<notin> set (dupNameNumbers st)"
    unfolding st by (rule scanFiles_not_NaN) simp
  have m: "mathMax (dupNameNumbers st) \<noteq> NaN"
    using n by (rule mathMax_not_NaN)
  have p: "plusOne (mathMax (dupNameNumbers st)) \<noteq> NaN"
    using m by (rule plusOne_not_NaN)
  have "\<exists>f \<in> set listed. \<exists>g. exec (basename f) = Some (Some g) \<and> g \<noteq> [] \<and> x = parseInt10 g
          \<and> \<not> isNaN (parseInt10 g)"
    if "x \<in> set (dupNameNumbers st)" for x
  proof -
    from that n have "x \<noteq> NaN" by auto
    moreover from that have "\<exists>f \<in> set listed. \<exists>g. exec (basename f) = Some (Some g) \<and> g \<noteq> [] \<and> x = parseInt10 g"
      unfolding st using scanFiles_parsed [of x exec "tf_name file" "exactFileName ?t" listed
          "\<lparr> isNewNameExist = False, dupNameNumbers = [] \<rparr>"]
      by simp
    ultimately show ?thesis by (auto simp: isNaN_def)
  qed
  with e n m p show ?thesis by blast
qed

theorem collected_numbers_never_NaN_witness:
  "scanSiblings bareHost DEFAULT_SETTINGS (js ''foo.png'') pastedFile
     [js ''foo.png'', js ''foo-1.png'', js ''foo-3.png'']
   = Some \<lparr> isNewNameExist = True, dupNameNumbers = [Fin 1, Fin 3] \<rparr>
   \<and> NaN \<notin> set [Fin 1, Fin 3] \<and> mathMax [Fin 1, Fin 3] \<noteq> NaN
   \<and> parseInt10 (js ''x1'') = NaN
   \<and> scanSiblings (bareHost\<lparr>compileExec := \<lambda>p. Some (\<lambda>s. Some (Some (js ''x1'')))\<rparr>)
         DEFAULT_SETTINGS (js ''foo.p?g'') pastedFile [js ''foo-1.png'']
       = Some \<lparr> isNewNameExist = False, dupNameNumbers = [] \<rparr>"
proof -
  have a: "scanSiblings bareHost DEFAULT_SETTINGS (js ''foo.png'') pastedFile
     [js ''foo.png'', js ''foo-1.png'', js ''foo-3.png'']
   = Some \<lparr> isNewNameExist = True, dupNameNumbers = [Fin 1, Fin 3] \<rparr>"
    by (simp add: dedup_eval toNumber_digits)
  have b: "scanSiblings (bareHost\<lparr>compileExec := \<lambda>p. Some (\<lambda>s. Some (Some (js ''x1'')))\<rparr>)
         DEFAULT_SETTINGS (js ''foo.p?g'') pastedFile [js ''foo-1.png'']
       = Some \<lparr> isNewNameExist = False, dupNameNumbers = [] \<rparr>"
    by (simp add: dedup_eval bareHost_def)
  have c: "parseInt10 (js ''x1'') = NaN"
    by (simp add: parseInt10_def isWhiteSpace_def isDigit_def js_def)
  show ?thesis
    using collected_numbers_never_NaN [OF a] collected_numbers_never_NaN [OF b] a b c
    by simp
qed

text \<open>
  C10: whenever \<open>deduplicateNewName\<close> returns, the returned stem is the parsed stem of
  the input name, the returned extension is the parsed extension of the input name when
  that is non-empty and otherwise the file's own \<open>extension\<close> (as it is, neither
  lower-cased nor adjusted for a conversion), and the returned name ends in a dot followed
  by that extension.
\<close>

theorem deduplicateNewName_stem_and_extension:
  assumes "deduplicateNewName h settings newName file listed = Inr r"
  shows "stem r = stem (parseFileName h newName)
         \<and> extension r =
             (if extension (parseFileName h newName) \<noteq> [] then extension (parseFileName h newName)
              else tf_extension file)
         \<and> (\<exists>front. name r = front @ js ''.'' @ extension r)"
proof -
  let ?t = "dedupTarget h newName file"
  from assms obtain st where
    r: "r = \<lparr> stem = stem ?t, extension = extension ?t, name = finalNameOf h settings ?t st \<rparr>"
    by (auto simp: deduplicateNewName_def Let_def split: option.splits)
  have s: "stem ?t = stem (parseFileName h newName)"
    and e: "extension ?t =
             (if extension (parseFileName h newName) \<noteq> [] then extension (parseFileName h newName)
              else tf_extension file)"
    by (simp_all add: dedupTarget_def Let_def)
  have "\<exists>front. finalNameOf h settings ?t st = front @ js ''.'' @ extension ?t"
  proof (cases "isNewNameExist st \<or> dupNumberAlways settings")
    case False
    then have "finalNameOf h settings ?t st = stem ?t @ js ''.'' @ extension ?t"
      by (simp add: finalNameOf_def exactFileName_def)
    then show ?thesis by blast
  next
    case True
    show ?thesis
    proof (cases "dupNumberAtStart settings")
      case True
      with \<open>isNewNameExist st \<or> dupNumberAlways settings\<close>
      have "\<exists>k. finalNameOf h settings ?t st = (k @ dupNumberDelimiter settings @ stem ?t) @ js ''.'' @ extension ?t"
        by (simp add: finalNameOf_def Let_def)
      then show ?thesis by blast
    next
      case False
      with \<open>isNewNameExist st \<or> dupNumberAlways settings\<close>
      have "\<exists>k. finalNameOf h settings ?t st = (stem ?t @ dupNumberDelimiter settings @ k) @ js ''.'' @ extension ?t"
        by (simp add: finalNameOf_def Let_def)
      then show ?thesis by blast
    qed
  qed
  with s e show ?thesis unfolding r by simp
qed


theorem deduplicateNewName_stem_and_extension_witness:
  "deduplicateNewName bareHost (DEFAULT_SETTINGS\<lparr>pngToJpeg := True\<rparr>) (js ''foo'')
     \<lparr> tf_name = js ''Pasted image 1.PNG'', tf_extension = js ''PNG'' \<rparr> [js ''foo.PNG'']
   = Inr \<lparr> stem = js ''foo'', extension = js ''PNG'', name = js ''foo-1.PNG'' \<rparr>
   \<and> parseFileName bareHost (js ''foo'') = \<lparr> stem = js ''foo'', extension = [] \<rparr>
   \<and> deduplicateNewName bareHost DEFAULT_SETTINGS (js ''Foo.Bar.JPG'') pastedFile []
     = Inr \<lparr> stem = js ''Foo.Bar'', extension = js ''jpg'', name = js ''Foo.Bar.jpg'' \<rparr>"
proof -
  have a: "deduplicateNewName bareHost (DEFAULT_SETTINGS\<lparr>pngToJpeg := True\<rparr>) (js ''foo'')
     \<lparr> tf_name = js ''Pasted image 1.PNG'', tf_extension = js ''PNG'' \<rparr> [js ''foo.PNG'']
   = Inr \<lparr> stem = js ''foo'', extension = js ''PNG'', name = js ''foo-1.PNG'' \<rparr>"
    by (simp add: dedup_eval toNumber_digits)
  have b: "deduplicateNewName bareHost DEFAULT_SETTINGS (js ''Foo.Bar.JPG'') pastedFile []
     = Inr \<lparr> stem = js ''Foo.Bar'', extension = js ''jpg'', name = js ''Foo.Bar.jpg'' \<rparr>"
    by (simp add: dedup_eval)
  have c: "parseFileName bareHost (js ''foo'') = \<lparr> stem = js ''foo'', extension = [] \<rparr>"
    by (simp add: parseFileName_def js_def Let_def)
  show ?thesis
    using deduplicateNewName_stem_and_extension [OF a] deduplicateNewName_stem_and_extension [OF b]
      a b c
    by simp
qed

text \<open>
  C1, as amended: whenever \<open>deduplicateNewName\<close> returns, and the exact target name
  is among the listed names other than the file's own name or the always-number flag is
  set, and every collected number is below \<open>2^53\<close>, the emitted name carries, at the
  configured position and with the configured delimiter, the decimal digits of one more
  than the maximum of the collected numbers, or of 1 when none was collected. Gaps are
  not filled: the witness is the spec's example, \<open>foo-4.png\<close> for the siblings
  \<open>foo.png\<close>, \<open>foo-1.png\<close>, \<open>foo-3.png\<close>.
\<close>

theorem deduplicateNewName_next_number:
  assumes ret: "deduplicateNewName h settings newName file listed = Inr r"
    and ex: "stem r @ js ''.'' @ extension r \<in> set (siblingNames file listed)
             \<or> dupNumberAlways settings"
    and nums: "collectedNumbers h settings newName file listed = map (\<lambda>n. Fin (int n)) ns"
    and small: "\<forall>n \<in> set ns. n < 2 ^ 53"
  shows "name r =
           (if dupNumberAtStart settings
            then decimal (if ns = [] then 1 else Max (set ns) + 1) @ dupNumberDelimiter settings
                 @ stem r @ js ''.'' @ extension r
            else stem r @ dupNumberDelimiter settings
                 @ decimal (if ns = [] then 1 else Max (set ns) + 1) @ js ''.'' @ extension r)"
proof -
  let ?t = "dedupTarget h newName file"
  from ret obtain st where
    sc: "scanSiblings h settings newName file listed = Some st" and
    r: "r = \<lparr> stem = stem ?t, extension = extension ?t, name = finalNameOf h settings ?t st \<rparr>"
    by (auto simp: deduplicateNewName_def Let_def split: option.splits)
  from sc obtain exec where
    st: "st = scanFiles exec (tf_name file) (exactFileName ?t) listed
               \<lparr> isNewNameExist = False, dupNameNumbers = [] \<rparr>"
    by (auto simp: scanSiblings_def Let_def split: option.splits)
  have found: "isNewNameExist st = (exactFileName ?t \<in> set (siblingNames file listed))"
    unfolding st siblingNames_def by (simp add: scanFiles_exist)
  have c: "isNewNameExist st \<or> dupNumberAlways settings"
    using ex unfolding found r by (simp add: exactFileName_def)
  have n: "dupNameNumbers st = map (\<lambda>n. Fin (int n)) ns"
    using nums sc by (simp add: collectedNumbers_def)
  have k: "numberToString h
             (if dupNameNumbers st \<noteq> [] then plusOne (mathMax (dupNameNumbers st)) else Fin 1)
           = decimal (if ns = [] then 1 else Max (set ns) + 1)"
  proof (cases "ns = []")
    case True
    have "numberToString h (Fin (int 1)) = decimal 1"
      by (rule numberToString_nat) simp
    with True n show ?thesis by simp
  next
    case False
    have "numberToString h (plusOne (mathMax (map (\<lambda>n. Fin (int n)) ns)))
          = decimal (Max (set ns) + 1)"
      using False small by (rule next_number)
    with False n show ?thesis by simp
  qed
  show ?thesis
    unfolding r using c k by (simp add: finalNameOf_def Let_def)
qed

theorem deduplicateNewName_next_number_witness:
  "deduplicateNewName bareHost DEFAULT_SETTINGS (js ''foo.png'') pastedFile
     [js ''foo.png'', js ''foo-1.png'', js ''foo-3.png'']
   = Inr \<lparr> stem = js ''foo'', extension = js ''png'', name = js ''foo-4.png'' \<rparr>
   \<and> collectedNumbers bareHost DEFAULT_SETTINGS (js ''foo.png'') pastedFile
        [js ''foo.png'', js ''foo-1.png'', js ''foo-3.png''] = [Fin 1, Fin 3]
   \<and> js ''foo.png'' \<in> set (siblingNames pastedFile [js ''foo.png'', js ''foo-1.png'', js ''foo-3.png''])"
proof -
  let ?l = "[js ''foo.png'', js ''foo-1.png'', js ''foo-3.png'']"
  have sc: "scanSiblings bareHost DEFAULT_SETTINGS (js ''foo.png'') pastedFile ?l
            = Some \<lparr> isNewNameExist = True, dupNameNumbers = [Fin 1, Fin 3] \<rparr>"
    by (simp add: dedup_eval toNumber_digits)
  define r where "r = \<lparr> stem = js ''foo'', extension = js ''png'',
      name = finalNameOf bareHost DEFAULT_SETTINGS \<lparr> stem = js ''foo'', extension = js ''png'' \<rparr>
               \<lparr> isNewNameExist = True, dupNameNumbers = [Fin 1, Fin 3] \<rparr> \<rparr>"
  have ret: "deduplicateNewName bareHost DEFAULT_SETTINGS (js ''foo.png'') pastedFile ?l = Inr r"
    unfolding deduplicateNewName_def sc r_def
    by (simp add: dedupTarget_def parseFileName_def slice_def sliceFrom_def toLowerCase_def
          isAsciiUpper_def js_def Let_def)
  have s: "stem r = js ''foo''" and e: "extension r = js ''png''"
    by (simp_all add: r_def)
  have ex: "stem r @ js ''.'' @ extension r \<in> set (siblingNames pastedFile ?l)
            \<or> dupNumberAlways DEFAULT_SETTINGS"
    unfolding s e by (simp add: siblingNames_def basename_def pastedFile_def js_def)
  have nums: "collectedNumbers bareHost DEFAULT_SETTINGS (js ''foo.png'') pastedFile ?l
              = map (\<lambda>n. Fin (int n)) [1, 3]"
    unfolding collectedNumbers_def sc by simp
  have small: "\<forall>n \<in> set [1, 3 :: nat]. n < 2 ^ 53" by simp
  have "name r = js ''foo-4.png''"
    using deduplicateNewName_next_number [OF ret ex nums small]
    unfolding s e by (simp add: DEFAULT_SETTINGS_def js_def)
  with ret s e have "deduplicateNewName bareHost DEFAULT_SETTINGS (js ''foo.png'') pastedFile ?l
     = Inr \<lparr> stem = js ''foo'', extension = js ''png'', name = js ''foo-4.png'' \<rparr>"
    by (cases r) simp
  moreover have "collectedNumbers bareHost DEFAULT_SETTINGS (js ''foo.png'') pastedFile ?l = [Fin 1, Fin 3]"
    unfolding collectedNumbers_def sc by simp
  moreover have "js ''foo.png'' \<in> set (siblingNames pastedFile ?l)"
    by (simp add: siblingNames_def basename_def pastedFile_def js_def)
  ultimately show ?thesis by blast
qed

text \<open>
  The claim as stated, for every sibling list, fails where doubles stop being exact:
  with the sibling \<open>foo-9007199254740992.png\<close> (\<open>2^53\<close>) the maximum plus one
  rounds back to the maximum, and the emitted name is that sibling's own name.
\<close>

theorem deduplicateNewName_next_number_counterexample:
  "deduplicateNewName bareHost DEFAULT_SETTINGS (js ''foo.png'') pastedFile
     [js ''foo.png'', js ''foo-9007199254740992.png'']
   = Inr \<lparr> stem = js ''foo'', extension = js ''png'', name = js ''foo-9007199254740992.png'' \<rparr>
   \<and> collectedNumbers bareHost DEFAULT_SETTINGS (js ''foo.png'') pastedFile
        [js ''foo.png'', js ''foo-9007199254740992.png''] = [Fin 9007199254740992]"
  by (simp add: dedup_eval toNumber_2_53 toNumber_def roundToDouble_def)

subsection \<open>The exact name, and the extension in the pattern\<close>

lemma deduplicateNewName_free_name:
  assumes ret: "deduplicateNewName h settings newName file listed = Inr r"
    and free: "stem r @ js ''.'' @ extension r \<notin> set (siblingNames file listed)"
    and never: "\<not> dupNumberAlways settings"
  shows "name r = stem r @ js ''.'' @ extension r"
proof -
  let ?t = "dedupTarget h newName file"
  from ret obtain st where
    sc: "scanSiblings h settings newName file listed = Some st" and
    r: "r = \<lparr> stem = stem ?t, extension = extension ?t, name = finalNameOf h settings ?t st \<rparr>"
    by (auto simp: deduplicateNewName_def Let_def split: option.splits)
  from sc obtain exec where
    st: "st = scanFiles exec (tf_name file) (exactFileName ?t) listed
               \<lparr> isNewNameExist = False, dupNameNumbers = [] \<rparr>"
    by (auto simp: scanSiblings_def Let_def split: option.splits)
  have "isNewNameExist st = (exactFileName ?t \<in> set (siblingNames file listed))"
    unfolding st siblingNames_def by (simp add: scanFiles_exist)
  with free have "\<not> isNewNameExist st"
    unfolding r by (simp add: exactFileName_def)
  with never show ?thesis
    unfolding r by (simp add: finalNameOf_def exactFileName_def)
qed

lemma filename_examples:
  "filename h (js ''foo.c++'') = js ''foo.c++''"
  by (simp add: filename_def trim_def filenameAllowed_def isLetter_def filenamePunctuation_def
        isHighSurrogate_def isLowSurrogate_def isWhiteSpace_def js_def)

text \<open>
  C2: the claim is that, the exact target name being free and the always-number flag
  off, the exact target name is returned for every candidate name. The code builds its
  expression from the escaped stem, the escaped delimiter and the extension as it is: for
  the candidate \<open>foo.c++\<close>, which the sanitizer of \<open>renameFile\<close> lets through, the
  constructor throws and nothing is returned, while the same characters in the stem
  (\<open>c++.png\<close>) are escaped and the name is returned.
\<close>

theorem deduplicateNewName_unescaped_extension:
  "nameToDedup h DEFAULT_SETTINGS file (js ''foo.c++'') = Inr (js ''foo.c++'')
   \<and> deduplicateNewName h DEFAULT_SETTINGS (js ''foo.c++'') file [] = Inl SyntaxError
   \<and> deduplicateNewName h DEFAULT_SETTINGS (js ''c++.png'') file []
       = Inr \<lparr> stem = js ''c++'', extension = js ''png'', name = js ''c++.png'' \<rparr>"
proof -
  have "nameToDedup h DEFAULT_SETTINGS file (js ''foo.c++'') = Inr (js ''foo.c++'')"
    unfolding nameToDedup_def filename_examples
    by (simp add: parseFileName_def slice_def sliceFrom_def toLowerCase_def isAsciiUpper_def
          js_def Let_def)
  moreover have "deduplicateNewName h DEFAULT_SETTINGS (js ''foo.c++'') file [] = Inl SyntaxError"
    by (simp add: dedup_eval)
  moreover have "deduplicateNewName h DEFAULT_SETTINGS (js ''c++.png'') file []
       = Inr \<lparr> stem = js ''c++'', extension = js ''png'', name = js ''c++.png'' \<rparr>"
    by (simp add: dedup_eval)
  ultimately show ?thesis by blast
qed

text \<open>
  C3 as stated fails: under the prefix policy with delimiter \<open>-\<close> and the
  always-number flag off, the siblings \<open>2-foo.png\<close> leave the exact name \<open>foo.png\<close>
  free, and it is returned unchanged.
\<close>

theorem deduplicateNewName_prefix_counterexample:
  "deduplicateNewName bareHost (DEFAULT_SETTINGS\<lparr>dupNumberAtStart := True\<rparr>) (js ''foo.png'')
     pastedFile [js ''2-foo.png'']
   = Inr \<lparr> stem = js ''foo'', extension = js ''png'', name = js ''foo.png'' \<rparr>
   \<and> js ''foo.png'' \<noteq> js ''3-foo.png''"
  by (simp add: dedup_eval toNumber_digits)

text \<open>
  C3, as amended: under the prefix policy with delimiter \<open>-\<close>, the candidate
  \<open>foo.png\<close> with the siblings \<open>2-foo.png\<close> gives \<open>3-foo.png\<close> when the
  always-number flag is set, and also with the flag off when \<open>foo.png\<close> itself is among
  the siblings; with the flag off and \<open>foo.png\<close> free it gives \<open>foo.png\<close>.
\<close>

theorem deduplicateNewName_prefix:
  "deduplicateNewName h (DEFAULT_SETTINGS\<lparr>dupNumberAtStart := True, dupNumberAlways := True\<rparr>)
     (js ''foo.png'') pastedFile [js ''2-foo.png'']
   = Inr \<lparr> stem = js ''foo'', extension = js ''png'', name = js ''3-foo.png'' \<rparr>
   \<and> deduplicateNewName h (DEFAULT_SETTINGS\<lparr>dupNumberAtStart := True\<rparr>)
       (js ''foo.png'') pastedFile [js ''foo.png'', js ''2-foo.png'']
     = Inr \<lparr> stem = js ''foo'', extension = js ''png'', name = js ''3-foo.png'' \<rparr>
   \<and> deduplicateNewName h (DEFAULT_SETTINGS\<lparr>dupNumberAtStart := True\<rparr>)
       (js ''foo.png'') pastedFile [js ''2-foo.png'']
     = Inr \<lparr> stem = js ''foo'', extension = js ''png'', name = js ''foo.png'' \<rparr>"
proof -
  have a: "deduplicateNewName h (DEFAULT_SETTINGS\<lparr>dupNumberAtStart := True, dupNumberAlways := True\<rparr>)
     (js ''foo.png'') pastedFile [js ''2-foo.png'']
   = Inr \<lparr> stem = js ''foo'', extension = js ''png'', name = js ''3-foo.png'' \<rparr>"
    by (simp add: dedup_eval toNumber_digits)
  have b: "deduplicateNewName h (DEFAULT_SETTINGS\<lparr>dupNumberAtStart := True\<rparr>)
       (js ''foo.png'') pastedFile [js ''foo.png'', js ''2-foo.png'']
     = Inr \<lparr> stem = js ''foo'', extension = js ''png'', name = js ''3-foo.png'' \<rparr>"
    by (simp add: dedup_eval toNumber_digits)
  have c: "deduplicateNewName h (DEFAULT_SETTINGS\<lparr>dupNumberAtStart := True\<rparr>)
       (js ''foo.png'') pastedFile [js ''2-foo.png'']
     = Inr \<lparr> stem = js ''foo'', extension = js ''png'', name = js ''foo.png'' \<rparr>"
    by (simp add: dedup_eval toNumber_digits)
  from a b c show ?thesis by blast
qed

end
